theory Spec2Isabelle
  imports Main
begin

section \<open>Signals and their identity\<close>

text \<open>
  Modelled from the spec: the type \<open>Signal\<close> is declared in \<open>@/types/signal\<close>, which is not
  among the sources. The record holds the three fields that \<open>getSignalId\<close> interpolates, each
  as the string the template literal renders.
\<close>

record signal =
  asset :: string
  direction :: string
  timestamp :: string

text \<open>\<open>useRingManager.ts\<close>, \<open>getSignalId\<close>: the template literal
  \<open>${signal.asset}-${signal.direction}-${signal.timestamp}\<close>.\<close>

definition getSignalId :: "signal \<Rightarrow> string" where
  "getSignalId sg = asset sg @ ''-'' @ direction sg @ ''-'' @ timestamp sg"

section \<open>Promises and the wake-lock utilities\<close>

text \<open>How an awaited promise settles: with a value, or with an error.\<close>

datatype 'a settled = Fulfilled 'a | Rejected string

text \<open>
  The browser as \<open>requestWakeLock\<close> sees it: either \<open>'wakeLock' in navigator\<close> is false, or
  the API is present and \<open>navigator.wakeLock.request('screen')\<close> settles one way or the other.
  A \<open>WakeLockSentinel\<close> is a handle, a natural number.
\<close>

datatype navigator = NoWakeLockApi | WakeLockApi "nat settled"

text \<open>
  \<open>wakeLockUtils.ts\<close>, \<open>requestWakeLock\<close>: the lines written to the console and the way the
  promise of the \<open>async\<close> function settles. The \<open>try\<close>/\<open>catch\<close> turns a rejected request into
  \<open>null\<close>; without the API nothing is awaited and nothing is written.
\<close>

definition requestWakeLock :: "navigator \<Rightarrow> string list \<times> nat option settled" where
  "requestWakeLock nav =
     (case nav of
        WakeLockApi req \<Rightarrow>
          (case req of
             Fulfilled lock \<Rightarrow> ([''Screen wake lock acquired''], Fulfilled (Some lock))
           | Rejected err \<Rightarrow> ([''Wake lock not supported: '' @ err], Fulfilled None))
      | NoWakeLockApi \<Rightarrow> ([], Fulfilled None))"

text \<open>What the hooks do to the world outside their own state, in the order they do it.\<close>

datatype effect =
    ConsoleLog string
  | CallTriggerRing signal
  | CallRequestWakeLock
  | SentinelRelease nat
  | WindowFocus
  | CallPlayCustomRingtone "string option"
  | OnSignalTriggered signal
  | SetInterval nat
  | ClearInterval nat
  | SetTimeout200
  | UnhandledRejection string

text \<open>\<open>wakeLockUtils.ts\<close>, \<open>releaseWakeLock\<close>: the effects of the call.\<close>

definition releaseWakeLock :: "nat option \<Rightarrow> effect list" where
  "releaseWakeLock wl =
     (case wl of
        Some lock \<Rightarrow> [SentinelRelease lock, ConsoleLog ''Screen wake lock released'']
      | None \<Rightarrow> [])"

section \<open>The state of \<open>useRingManager\<close>\<close>

record audio_element =
  paused :: bool
  currentTime :: nat

datatype context_state = Suspended | Running | Closed

text \<open>
  What the callback passed to \<open>setInterval\<close> has captured: the values of the render whose
  effect created the timer.
\<close>

record closure =
  cl_savedSignals :: "signal list"
  cl_antidelaySeconds :: nat
  cl_alreadyRangIds :: "string set"
  cl_customRingtone :: "string option"

text \<open>
  An invocation of the \<open>async\<close> function \<open>triggerRing\<close> that is suspended at its first
  \<open>await\<close> (the wake lock) or at its second (the audio), with the signal and the ringtone it
  captured.
\<close>

datatype suspended = AtWakeLock signal "string option" | AtAudio signal "string option"

text \<open>What \<open>await playCustomRingtone(...)\<close> evaluates to, as far as \<open>triggerRing\<close> tests it.\<close>

datatype audio_value = HTMLAudioElement nat | NotAnElement

record ring_manager =
  savedSignals :: "signal list"
  antidelaySeconds :: nat
  customRingtone :: "string option"
  isRinging :: bool
  currentRingingSignal :: "signal option"
  wakeLock :: "nat option"
  ringOffButtonPressed :: bool
  alreadyRangIds :: "string set"
  intervalRef :: "nat option"
  audioInstancesRef :: "nat list"
  audioContextsRef :: "nat list"
  hasCleanup :: bool
  timers :: "(nat \<times> closure) list"
  nextTimer :: nat
  timeouts :: nat
  suspendedRings :: "nat \<rightharpoonup> suspended"
  nextCall :: nat
  elements :: "nat \<Rightarrow> audio_element"
  documentAudio :: "nat list"
  contexts :: "nat \<Rightarrow> context_state"
  trace :: "effect list"

text \<open>
  The first eleven fields are the hook's props, its \<open>useState\<close> cells and its refs, under the
  source's names. The others are the environment: \<open>hasCleanup\<close> says whether the last run of
  the interval effect returned a cleanup function, \<open>timers\<close> are the live intervals with their
  closures, \<open>timeouts\<close> counts the pending 200 ms timeouts, \<open>suspendedRings\<close> are the
  \<open>triggerRing\<close> invocations waiting at an \<open>await\<close>, \<open>elements\<close> and \<open>contexts\<close> are the
  media elements and audio contexts by handle, \<open>documentAudio\<close> is what
  \<open>document.querySelectorAll('audio')\<close> finds, and \<open>trace\<close> is the sequence of outside
  effects so far.

  State set during one event handler is committed, and the effects whose dependencies
  changed are re-run, before the next event is handled.
\<close>

definition addTrace :: "effect list \<Rightarrow> ring_manager \<Rightarrow> ring_manager" where
  "addTrace es s = s\<lparr>trace := trace s @ es\<rparr>"

section \<open>\<open>triggerRing\<close>\<close>

text \<open>
  Lines 30 to 38, up to the first \<open>await\<close>: the two console lines, \<open>setIsRinging(true)\<close>,
  \<open>setCurrentRingingSignal(signal)\<close> and the call of \<open>requestWakeLock\<close>, at which the
  invocation is suspended. The ringtone is the one the \<open>useCallback\<close> closure holds.
\<close>

definition triggerRing :: "string option \<Rightarrow> signal \<Rightarrow> ring_manager \<Rightarrow> ring_manager" where
  "triggerRing ring sg s =
     s\<lparr>isRinging := True,
       currentRingingSignal := Some sg,
       suspendedRings := (suspendedRings s)(nextCall s \<mapsto> AtWakeLock sg ring),
       nextCall := Suc (nextCall s),
       trace := trace s @
         [CallTriggerRing sg,
          ConsoleLog ''TRIGGER RING - Custom ringtone available'',
          ConsoleLog ''Custom ringtone data length'',
          CallRequestWakeLock]\<rparr>"

text \<open>
  Lines 38 to 47, resumed when \<open>requestWakeLock()\<close> has settled on the browser \<open>nav\<close>:
  \<open>setWakeLock(lock)\<close>, \<open>window.focus()\<close> when \<open>document.hidden\<close>, the console line and the call
  of \<open>playCustomRingtone\<close>, at which the invocation is suspended again. Were the promise
  rejected, the \<open>async\<close> function would end there with an unhandled rejection.
\<close>

definition triggerRing_afterWakeLock ::
    "nat \<Rightarrow> navigator \<Rightarrow> bool \<Rightarrow> ring_manager \<Rightarrow> ring_manager" where
  "triggerRing_afterWakeLock k nav hidden s =
     (case suspendedRings s k of
        Some (AtWakeLock sg ring) \<Rightarrow>
          (case requestWakeLock nav of
             (logs, Fulfilled lock) \<Rightarrow>
               s\<lparr>wakeLock := lock,
                 suspendedRings := (suspendedRings s)(k \<mapsto> AtAudio sg ring),
                 trace := trace s @ map ConsoleLog logs @
                   (if hidden then [WindowFocus] else []) @
                   [ConsoleLog ''About to call playCustomRingtone'',
                    CallPlayCustomRingtone ring]\<rparr>
           | (logs, Rejected err) \<Rightarrow>
               s\<lparr>suspendedRings := (suspendedRings s)(k := None),
                 trace := trace s @ map ConsoleLog logs @ [UnhandledRejection err]\<rparr>)
      | _ \<Rightarrow> s)"

section \<open>The interval effect\<close>

definition closureOf :: "ring_manager \<Rightarrow> closure" where
  "closureOf s =
     \<lparr>cl_savedSignals = savedSignals s,
      cl_antidelaySeconds = antidelaySeconds s,
      cl_alreadyRangIds = alreadyRangIds s,
      cl_customRingtone = customRingtone s\<rparr>"

text \<open>
  Lines 77 to 81, the cleanup the effect returned, if it returned one:
  \<open>if (intervalRef.current) clearInterval(intervalRef.current)\<close>. Timer handles are never
  zero, so the test is a test for \<open>null\<close>.
\<close>

definition effectCleanup :: "ring_manager \<Rightarrow> ring_manager" where
  "effectCleanup s =
     (if hasCleanup s then
        (case intervalRef s of
           Some i \<Rightarrow> s\<lparr>timers := filter (\<lambda>(j, c). j \<noteq> i) (timers s),
                       trace := trace s @ [ClearInterval i]\<rparr>
         | None \<Rightarrow> s)
      else s)"

text \<open>
  Lines 63 to 82, the body of the effect: with a signal saved, a new interval whose callback
  captures this render's values, and a cleanup; with none, nothing and no cleanup.
\<close>

definition effectBody :: "ring_manager \<Rightarrow> ring_manager" where
  "effectBody s =
     (if length (savedSignals s) > 0 then
        s\<lparr>intervalRef := Some (nextTimer s),
          timers := timers s @ [(nextTimer s, closureOf s)],
          nextTimer := Suc (nextTimer s),
          hasCleanup := True,
          trace := trace s @
            [ConsoleLog ''Setting up signal checking interval...'', SetInterval (nextTimer s)]\<rparr>
      else s\<lparr>hasCleanup := False\<rparr>)"

text \<open>A dependency of the effect changed: the old cleanup runs, then the body.\<close>

definition rerunEffect :: "ring_manager \<Rightarrow> ring_manager" where
  "rerunEffect s = effectBody (effectCleanup s)"

text \<open>
  Modelled from the spec: \<open>playCustomRingtone\<close> is in \<open>@/utils/audioUtils\<close>, which is not
  among the sources. Following section 4.4 of the spec, a custom payload is played through a
  media element, which the call resolves to, the default tone through audio contexts, which
  the call appends to the collection it is handed; the element is then playing and the
  contexts are running. Which of these happens, and whether the promise rejects instead,
  comes from outside with the event.

  Lines 47 to 58, resumed when \<open>playCustomRingtone\<close> has settled: a media element is
  pushed on \<open>audioInstancesRef\<close>, \<open>onSignalTriggered(signal)\<close> is called and the identity is
  added to a copy of \<open>alreadyRangIds\<close>. \<open>setAlreadyRangIds\<close> always stores a new \<open>Set\<close>, a
  changed dependency of the interval effect, which therefore re-runs. A rejection is not
  caught: it ends the \<open>async\<close> function before the signal is marked.
\<close>

definition triggerRing_afterAudio ::
    "nat \<Rightarrow> (audio_value \<times> nat list) settled \<Rightarrow> ring_manager \<Rightarrow> ring_manager" where
  "triggerRing_afterAudio k outcome s =
     (case suspendedRings s k of
        Some (AtAudio sg ring) \<Rightarrow>
          (case outcome of
             Fulfilled (audio, ctxs) \<Rightarrow>
               rerunEffect
                 (s\<lparr>audioContextsRef := audioContextsRef s @ ctxs,
                    contexts := (\<lambda>c. if c \<in> set ctxs then Running else contexts s c),
                    audioInstancesRef :=
                      (case audio of
                         HTMLAudioElement a \<Rightarrow> audioInstancesRef s @ [a]
                       | NotAnElement \<Rightarrow> audioInstancesRef s),
                    elements :=
                      (case audio of
                         HTMLAudioElement a \<Rightarrow>
                           (elements s)(a := \<lparr>paused = False, currentTime = 0\<rparr>)
                       | NotAnElement \<Rightarrow> elements s),
                    alreadyRangIds := insert (getSignalId sg) (alreadyRangIds s),
                    suspendedRings := (suspendedRings s)(k := None),
                    trace := trace s @ [OnSignalTriggered sg]\<rparr>)
           | Rejected err \<Rightarrow>
               s\<lparr>suspendedRings := (suspendedRings s)(k := None),
                 trace := trace s @ [UnhandledRejection err]\<rparr>)
      | _ \<Rightarrow> s)"

text \<open>
  Lines 65 to 75, one firing of the interval \<open>i\<close> at the instant \<open>now\<close>. \<open>checkSignalTime\<close> is
  in \<open>@/utils/signalUtils\<close>, not among the sources, and reads the clock: it is the parameter
  \<open>check\<close>, applied to the signal, the antidelay and the instant. A timer that was cleared
  does not fire.
\<close>

definition intervalCallback ::
    "(signal \<Rightarrow> nat \<Rightarrow> nat \<Rightarrow> bool) \<Rightarrow> closure \<Rightarrow> nat \<Rightarrow> ring_manager \<Rightarrow> ring_manager" where
  "intervalCallback check c now s =
     fold (\<lambda>sg st.
        if check sg (cl_antidelaySeconds c) now \<and> getSignalId sg \<notin> cl_alreadyRangIds c
        then triggerRing (cl_customRingtone c) sg
               (addTrace [ConsoleLog ''Signal time reached, triggering ring for''] st)
        else st)
       (cl_savedSignals c) s"

definition tick ::
    "(signal \<Rightarrow> nat \<Rightarrow> nat \<Rightarrow> bool) \<Rightarrow> nat \<Rightarrow> nat \<Rightarrow> ring_manager \<Rightarrow> ring_manager" where
  "tick check i now s =
     (case map_of (timers s) i of
        Some c \<Rightarrow> intervalCallback check c now s
      | None \<Rightarrow> s)"

section \<open>\<open>handleRingOff\<close>\<close>

text \<open>\<open>audio.pause(); audio.currentTime = 0\<close>.\<close>

definition pauseAndRewind :: "nat \<Rightarrow> (nat \<Rightarrow> audio_element) \<Rightarrow> (nat \<Rightarrow> audio_element)" where
  "pauseAndRewind a els = els(a := \<lparr>paused = True, currentTime = 0\<rparr>)"

text \<open>
  \<open>if (context && context.state !== 'closed') context.close().catch(...)\<close>: a context counts
  as closed once \<open>close()\<close> has been called on it.
\<close>

definition closeContext :: "nat \<Rightarrow> (nat \<Rightarrow> context_state) \<Rightarrow> (nat \<Rightarrow> context_state)" where
  "closeContext c cs = (if cs c \<noteq> Closed then cs(c := Closed) else cs)"

text \<open>
  Lines 86 to 121. The pressed flag and its timeout; every tracked element paused and
  rewound and the list emptied; every tracked context that is not closed, closed (a
  rejection of \<open>close()\<close> is caught and logged) and the list emptied; every \<open>audio\<close> element of
  the document paused and rewound; and, only if \<open>isRinging\<close>, the flag and the ringing signal
  reset, the stored wake lock released and forgotten.
\<close>

definition handleRingOff :: "ring_manager \<Rightarrow> ring_manager" where
  "handleRingOff s =
     (let s1 = s\<lparr>ringOffButtonPressed := True,
                 timeouts := Suc (timeouts s),
                 trace := trace s @ [SetTimeout200]\<rparr>;
          s2 = s1\<lparr>elements := fold pauseAndRewind (audioInstancesRef s1) (elements s1),
                  audioInstancesRef := []\<rparr>;
          s3 = s2\<lparr>contexts := fold closeContext (audioContextsRef s2) (contexts s2),
                  audioContextsRef := []\<rparr>;
          s4 = s3\<lparr>elements := fold pauseAndRewind (documentAudio s3) (elements s3)\<rparr>
      in if isRinging s then
           s4\<lparr>isRinging := False,
              currentRingingSignal := None,
              wakeLock := None,
              trace := trace s4 @ releaseWakeLock (wakeLock s)\<rparr>
         else s4)"

text \<open>The 200 ms timeout of \<open>handleRingOff\<close>: \<open>setRingOffButtonPressed(false)\<close>.\<close>

definition ringOffTimeout :: "ring_manager \<Rightarrow> ring_manager" where
  "ringOffTimeout s =
     (if timeouts s > 0 then s\<lparr>ringOffButtonPressed := False, timeouts := timeouts s - 1\<rparr>
      else s)"

section \<open>Mounting the hook and the events that drive it\<close>

text \<open>
  The first render, lines 13 to 22, with the props and the ringtone of \<open>useAudioManager\<close>,
  followed by the first run of the interval effect.
\<close>

definition mount :: "signal list \<Rightarrow> nat \<Rightarrow> string option \<Rightarrow> ring_manager" where
  "mount sigs d ring =
     effectBody
       \<lparr>savedSignals = sigs,
        antidelaySeconds = d,
        customRingtone = ring,
        isRinging = False,
        currentRingingSignal = None,
        wakeLock = None,
        ringOffButtonPressed = False,
        alreadyRangIds = {},
        intervalRef = None,
        audioInstancesRef = [],
        audioContextsRef = [],
        hasCleanup = False,
        timers = [],
        nextTimer = 1,
        timeouts = 0,
        suspendedRings = Map.empty,
        nextCall = 0,
        elements = (\<lambda>a. \<lparr>paused = True, currentTime = 0\<rparr>),
        documentAudio = [],
        contexts = (\<lambda>c. Closed),
        trace = []\<rparr>"

datatype event =
    Tick nat nat
  | WakeLockSettled nat navigator bool
  | AudioSettled nat "(audio_value \<times> nat list) settled"
  | RingOff
  | RingOffTimeout
  | SaveSignals "signal list"
  | SetAntidelay nat
  | SetCustomRingtone "string option"

text \<open>
  One event: the interval \<open>i\<close> fires at an instant, the wake-lock request or the audio start
  of the suspended invocation \<open>k\<close> settles, the ring-off button is pressed, its timeout
  expires, or the caller passes a new list, antidelay or ringtone. A saved list is a new
  array, so the interval effect always re-runs on it; the antidelay and the ringtone are
  compared by value, and an unchanged value re-runs nothing. What \<open>onSignalTriggered\<close> does
  to the saved list is the caller's business: it comes back as a \<open>SaveSignals\<close> event.
\<close>

fun step :: "(signal \<Rightarrow> nat \<Rightarrow> nat \<Rightarrow> bool) \<Rightarrow> event \<Rightarrow> ring_manager \<Rightarrow> ring_manager" where
  "step check (Tick i now) s = tick check i now s"
| "step check (WakeLockSettled k nav hidden) s = triggerRing_afterWakeLock k nav hidden s"
| "step check (AudioSettled k outcome) s = triggerRing_afterAudio k outcome s"
| "step check RingOff s = handleRingOff s"
| "step check RingOffTimeout s = ringOffTimeout s"
| "step check (SaveSignals sigs) s = rerunEffect (s\<lparr>savedSignals := sigs\<rparr>)"
| "step check (SetAntidelay d) s =
     (if d = antidelaySeconds s then s else rerunEffect (s\<lparr>antidelaySeconds := d\<rparr>))"
| "step check (SetCustomRingtone ring) s =
     (if ring = customRingtone s then s else rerunEffect (s\<lparr>customRingtone := ring\<rparr>))"

definition run ::
    "(signal \<Rightarrow> nat \<Rightarrow> nat \<Rightarrow> bool) \<Rightarrow> event list \<Rightarrow> ring_manager \<Rightarrow> ring_manager" where
  "run check evs s = fold (step check) evs s"

section \<open>The background-task effect of \<open>useSignalTracker\<close>\<close>

datatype tracker_call =
    GetBackgroundTaskStatus
  | StartBackgroundTask
  | ScheduleAllSignalNotifications "signal list"
  | PostRegisterBackgroundSync
  | StopBackgroundTask

text \<open>
  \<open>useSignalTracker.ts\<close>, lines 52 to 70, the body of the effect on \<open>[savedSignals]\<close>: the
  calls it makes to \<open>@/utils/backgroundTaskManager\<close> (not among the sources) and to the
  service worker, given what \<open>getBackgroundTaskStatus().isActive\<close> answers and whether
  \<open>navigator.serviceWorker.controller\<close> is there.
\<close>

definition backgroundEffect :: "signal list \<Rightarrow> bool \<Rightarrow> bool \<Rightarrow> tracker_call list" where
  "backgroundEffect sigs isActive controller =
     (if length sigs > 0 then
        [GetBackgroundTaskStatus] @
        (if \<not> isActive then [StartBackgroundTask] else []) @
        [ScheduleAllSignalNotifications sigs] @
        (if controller then [PostRegisterBackgroundSync] else [])
      else [StopBackgroundTask])"

text \<open>Lines 72 to 78, the cleanup, with the list its render captured.\<close>

definition backgroundCleanup :: "signal list \<Rightarrow> bool \<Rightarrow> tracker_call list" where
  "backgroundCleanup sigs isActive =
     [GetBackgroundTaskStatus] @
     (if isActive \<and> length sigs = 0 then [StopBackgroundTask] else [])"

text \<open>
  The saved list changes from \<open>old\<close> to \<open>new\<close>: the cleanup of the old render, then the body
  of the new one. The status is asked twice, and answered \<open>a1\<close> and \<open>a2\<close>.
\<close>

definition backgroundRerun ::
    "signal list \<Rightarrow> signal list \<Rightarrow> bool \<Rightarrow> bool \<Rightarrow> bool \<Rightarrow> tracker_call list" where
  "backgroundRerun old new a1 a2 controller =
     backgroundCleanup old a1 @ backgroundEffect new a2 controller"

section \<open>Observations on a state\<close>

text \<open>The signals \<open>triggerRing\<close> was called with, and the sentinels released, in order.\<close>

fun triggered :: "effect list \<Rightarrow> signal list" where
  "triggered [] = []"
| "triggered (CallTriggerRing sg # es) = sg # triggered es"
| "triggered (e # es) = triggered es"

fun released :: "effect list \<Rightarrow> nat list" where
  "released [] = []"
| "released (SentinelRelease l # es) = l # released es"
| "released (e # es) = released es"

text \<open>How often \<open>triggerRing\<close> has been called for a signal of the identity \<open>idn\<close>.\<close>

definition ringCalls :: "string \<Rightarrow> ring_manager \<Rightarrow> nat" where
  "ringCalls idn s = count_list (map getSignalId (triggered (trace s))) idn"

text \<open>
  The interval effect is in step with the state: without a saved signal no timer is alive
  and no cleanup is due; with one, exactly one timer is alive, it is the one
  \<open>intervalRef\<close> holds, and its callback has captured the current values.
\<close>

definition armed :: "ring_manager \<Rightarrow> bool" where
  "armed s =
     (if savedSignals s = [] then timers s = [] \<and> \<not> hasCleanup s
      else hasCleanup s \<and>
        (case intervalRef s of
           Some i \<Rightarrow> timers s = [(i, closureOf s)] \<and> i < nextTimer s
         | None \<Rightarrow> False))"

text \<open>What the cleanup needs in order to leave no timer behind.\<close>

definition oneTimer :: "ring_manager \<Rightarrow> bool" where
  "oneTimer s =
     (if hasCleanup s then
        (case intervalRef s of Some i \<Rightarrow> map fst (timers s) = [i] | None \<Rightarrow> False)
      else timers s = [])"

text \<open>The fields the interval effect reads or writes.\<close>

definition effectPart ::
  "ring_manager \<Rightarrow> signal list \<times> nat \<times> string option \<times> string set \<times> nat option \<times> bool \<times>
     (nat \<times> closure) list \<times> nat" where
  "effectPart s = (savedSignals s, antidelaySeconds s, customRingtone s, alreadyRangIds s,
     intervalRef s, hasCleanup s, timers s, nextTimer s)"

text \<open>
  A signal and a trigger evaluator for concrete runs: the signal of the spec's scenario A,
  and an evaluator that finds every signal due at every instant.
\<close>

definition eurusd :: signal where
  "eurusd = \<lparr>asset = ''EURUSD'', direction = ''up'', timestamp = ''100''\<rparr>"

definition alwaysDue :: "signal \<Rightarrow> nat \<Rightarrow> nat \<Rightarrow> bool" where
  "alwaysDue sg d now = True"

text \<open>
  A second signal, and the runs the concrete statements below are about. \<open>rearmed\<close>: the
  signal fires, the wake lock is granted, the audio starts. \<open>dismissedInFlight\<close>: the alarm
  is dismissed while the wake-lock request is pending, and the request is granted
  afterwards. \<open>failedEntry\<close>: the wake-lock request is denied and the audio-start call
  rejects. \<open>unsupportedEntry\<close>: the signal fires on a browser without the wake-lock API. \<open>firedTwice\<close>: two ticks find the signal due while the wake-lock request of the
  first is pending. \<open>twoRings\<close>: a second signal is saved and fires while the first alarm
  is ringing, and each gets a wake lock.
\<close>

definition gbpusd :: signal where
  "gbpusd = \<lparr>asset = ''GBPUSD'', direction = ''down'', timestamp = ''100''\<rparr>"

definition rearmed :: ring_manager where
  "rearmed = run alwaysDue
     [Tick 1 100, WakeLockSettled 0 (WakeLockApi (Fulfilled 7)) False,
      AudioSettled 0 (Fulfilled (HTMLAudioElement 3, []))]
     (mount [eurusd] 0 None)"

definition dismissedInFlight :: ring_manager where
  "dismissedInFlight = run alwaysDue
     [Tick 1 100, RingOff, WakeLockSettled 0 (WakeLockApi (Fulfilled 7)) False]
     (mount [eurusd] 0 None)"

definition failedEntry :: ring_manager where
  "failedEntry = run alwaysDue
     [Tick 1 100, WakeLockSettled 0 (WakeLockApi (Rejected ''NotAllowedError'')) False,
      AudioSettled 0 (Rejected ''NotSupportedError'')]
     (mount [eurusd] 0 None)"

definition unsupportedEntry :: ring_manager where
  "unsupportedEntry = run alwaysDue
     [Tick 1 100, WakeLockSettled 0 NoWakeLockApi False]
     (mount [eurusd] 0 None)"

definition firedTwice :: ring_manager where
  "firedTwice = run alwaysDue [Tick 1 100, Tick 1 101] (mount [eurusd] 0 None)"

definition twoRings :: ring_manager where
  "twoRings = run alwaysDue
     [Tick 1 100, WakeLockSettled 0 (WakeLockApi (Fulfilled 7)) False,
      AudioSettled 0 (Fulfilled (NotAnElement, [5])),
      SaveSignals [eurusd, gbpusd],
      Tick 3 101, WakeLockSettled 1 (WakeLockApi (Fulfilled 8)) False,
      AudioSettled 1 (Fulfilled (NotAnElement, [6]))]
     (mount [eurusd] 0 None)"

section \<open>Frame and invariant lemmas\<close>

lemmas hook_defs =
  run_def mount_def effectBody_def effectCleanup_def rerunEffect_def closureOf_def tick_def
  intervalCallback_def triggerRing_def triggerRing_afterWakeLock_def triggerRing_afterAudio_def
  requestWakeLock_def releaseWakeLock_def handleRingOff_def ringOffTimeout_def addTrace_def
  getSignalId_def ringCalls_def eurusd_def alwaysDue_def pauseAndRewind_def closeContext_def

lemma triggered_append: "triggered (xs @ ys) = triggered xs @ triggered ys"
  by (induction xs rule: triggered.induct) simp_all

lemma released_append: "released (xs @ ys) = released xs @ released ys"
  by (induction xs rule: released.induct) simp_all

lemma armed_effectPart: "effectPart s = effectPart t \<Longrightarrow> armed s = armed t"
  by (simp add: effectPart_def armed_def closureOf_def split: option.split)

lemma effectPart_triggerRing: "effectPart (triggerRing ring sg s) = effectPart s"
  by (simp add: effectPart_def triggerRing_def)

lemma effectPart_addTrace: "effectPart (addTrace es s) = effectPart s"
  by (simp add: effectPart_def addTrace_def)

lemma effectPart_intervalCallback: "effectPart (intervalCallback check c now s) = effectPart s"
proof -
  have "effectPart (fold f xs s) = effectPart s"
    if "\<And>x t. effectPart (f x t) = effectPart t" for f :: "signal \<Rightarrow> ring_manager \<Rightarrow> ring_manager" and xs
    using that by (induction xs arbitrary: s) simp_all
  then show ?thesis
    unfolding intervalCallback_def
    by (simp add: effectPart_triggerRing effectPart_addTrace)
qed

lemma effectPart_tick: "effectPart (tick check i now s) = effectPart s"
  by (simp add: tick_def effectPart_intervalCallback split: option.split)

lemma triggered_intervalCallback:
  "triggered (trace (intervalCallback check c now s)) =
     triggered (trace s) @
     filter (\<lambda>sg. check sg (cl_antidelaySeconds c) now \<and> getSignalId sg \<notin> cl_alreadyRangIds c)
       (cl_savedSignals c)"
proof -
  define P where "P = (\<lambda>sg. check sg (cl_antidelaySeconds c) now \<and> getSignalId sg \<notin> cl_alreadyRangIds c)"
  define f where "f = (\<lambda>sg st. if P sg
        then triggerRing (cl_customRingtone c) sg
               (addTrace [ConsoleLog ''Signal time reached, triggering ring for''] st)
        else st)"
  have "triggered (trace (fold f xs s)) = triggered (trace s) @ filter P xs" for xs
    by (induction xs arbitrary: s)
      (simp_all add: f_def triggerRing_def addTrace_def triggered_append)
  then show ?thesis
    by (simp add: intervalCallback_def f_def P_def)
qed

lemma armed_mount: "armed (mount sigs d ring)"
  by (simp add: armed_def mount_def effectBody_def closureOf_def)

lemma effectCleanup_none:
  "\<not> hasCleanup s \<Longrightarrow> effectCleanup s = s"
  by (simp add: effectCleanup_def)

lemma timers_effectCleanup:
  "hasCleanup s \<Longrightarrow> intervalRef s = Some i \<Longrightarrow> timers s = [(i, c)] \<Longrightarrow>
   timers (effectCleanup s) = []"
  by (simp add: effectCleanup_def)

lemma armed_effectBody:
  "timers s = [] \<Longrightarrow> armed (effectBody s)"
  by (simp add: armed_def effectBody_def closureOf_def)

lemma timers_effectCleanup_oneTimer: "oneTimer s \<Longrightarrow> timers (effectCleanup s) = []"
  by (cases "timers s") (auto simp add: oneTimer_def effectCleanup_def split: option.splits if_splits)

lemma armed_rerunEffect: "oneTimer s \<Longrightarrow> armed (rerunEffect s)"
  by (simp add: rerunEffect_def armed_effectBody timers_effectCleanup_oneTimer)

lemma armed_oneTimer: "armed s \<Longrightarrow> oneTimer s"
  by (auto simp add: armed_def oneTimer_def split: if_splits option.splits)

lemma oneTimer_cong:
  "hasCleanup s = hasCleanup t \<Longrightarrow> intervalRef s = intervalRef t \<Longrightarrow> timers s = timers t \<Longrightarrow>
   oneTimer s = oneTimer t"
  by (simp add: oneTimer_def split: option.split)

lemma oneTimer_effectPart: "effectPart s = effectPart t \<Longrightarrow> oneTimer s = oneTimer t"
  by (simp add: effectPart_def oneTimer_def split: option.split)

lemma effectPart_afterWakeLock:
  "effectPart (triggerRing_afterWakeLock k nav hidden s) = effectPart s"
  by (simp add: triggerRing_afterWakeLock_def effectPart_def
      split: option.split suspended.split prod.split settled.split)

lemma effectPart_handleRingOff: "effectPart (handleRingOff s) = effectPart s"
  by (simp add: handleRingOff_def effectPart_def Let_def)

lemma effectPart_ringOffTimeout: "effectPart (ringOffTimeout s) = effectPart s"
  by (simp add: ringOffTimeout_def effectPart_def)

lemma armed_afterAudio: "armed s \<Longrightarrow> armed (triggerRing_afterAudio k outcome s)"
proof -
  assume a: "armed s"
  have o: "oneTimer (s\<lparr>audioContextsRef := x1, contexts := x2, audioInstancesRef := x3,
      elements := x4, alreadyRangIds := x5, suspendedRings := x6, trace := x7\<rparr>)"
    for x1 x2 x3 x4 x5 x6 x7
    using armed_oneTimer[OF a]
      oneTimer_cong[of "s\<lparr>audioContextsRef := x1, contexts := x2, audioInstancesRef := x3,
      elements := x4, alreadyRangIds := x5, suspendedRings := x6, trace := x7\<rparr>" s]
    by simp
  have r: "armed (s\<lparr>suspendedRings := x6, trace := x7\<rparr>)" for x6 x7
    using a armed_effectPart[of "s\<lparr>suspendedRings := x6, trace := x7\<rparr>" s]
    by (simp add: effectPart_def)
  show ?thesis
    unfolding triggerRing_afterAudio_def
    by (simp add: a o r armed_rerunEffect
        split: option.split suspended.split settled.split prod.split)
qed

lemma armed_step: "armed s \<Longrightarrow> armed (step check e s)"
proof (cases e)
  case (Tick i now)
  assume "armed s"
  then show ?thesis using Tick armed_effectPart[OF effectPart_tick] by simp
next
  case (WakeLockSettled k nav hidden)
  assume "armed s"
  then show ?thesis using WakeLockSettled armed_effectPart[OF effectPart_afterWakeLock] by simp
next
  case (AudioSettled k outcome)
  assume "armed s"
  then show ?thesis using AudioSettled by (simp add: armed_afterAudio)
next
  case RingOff
  assume "armed s"
  then show ?thesis using RingOff armed_effectPart[OF effectPart_handleRingOff] by simp
next
  case RingOffTimeout
  assume "armed s"
  then show ?thesis using RingOffTimeout armed_effectPart[OF effectPart_ringOffTimeout] by simp
next
  case (SaveSignals sigs)
  assume a: "armed s"
  have "oneTimer (s\<lparr>savedSignals := sigs\<rparr>)"
    using armed_oneTimer[OF a] oneTimer_cong[of "s\<lparr>savedSignals := sigs\<rparr>" s] by simp
  then show ?thesis using SaveSignals by (simp add: armed_rerunEffect)
next
  case (SetAntidelay d)
  assume a: "armed s"
  have "oneTimer (s\<lparr>antidelaySeconds := d\<rparr>)"
    using armed_oneTimer[OF a] oneTimer_cong[of "s\<lparr>antidelaySeconds := d\<rparr>" s] by simp
  then show ?thesis using SetAntidelay a by (simp add: armed_rerunEffect)
next
  case (SetCustomRingtone r)
  assume a: "armed s"
  have "oneTimer (s\<lparr>customRingtone := r\<rparr>)"
    using armed_oneTimer[OF a] oneTimer_cong[of "s\<lparr>customRingtone := r\<rparr>" s] by simp
  then show ?thesis using SetCustomRingtone a by (simp add: armed_rerunEffect)
qed

lemma armed_run: "armed s \<Longrightarrow> armed (run check evs s)"
  unfolding run_def by (induction evs arbitrary: s) (simp_all add: armed_step)

lemma rerunEffect_frame:
  "savedSignals (rerunEffect s) = savedSignals s"
  "antidelaySeconds (rerunEffect s) = antidelaySeconds s"
  "customRingtone (rerunEffect s) = customRingtone s"
  "isRinging (rerunEffect s) = isRinging s"
  "currentRingingSignal (rerunEffect s) = currentRingingSignal s"
  "wakeLock (rerunEffect s) = wakeLock s"
  "alreadyRangIds (rerunEffect s) = alreadyRangIds s"
  "audioInstancesRef (rerunEffect s) = audioInstancesRef s"
  "audioContextsRef (rerunEffect s) = audioContextsRef s"
  "suspendedRings (rerunEffect s) = suspendedRings s"
  "elements (rerunEffect s) = elements s"
  "contexts (rerunEffect s) = contexts s"
  by (simp_all add: rerunEffect_def effectBody_def effectCleanup_def split: option.split)

lemma triggered_rerunEffect: "triggered (trace (rerunEffect s)) = triggered (trace s)"
  by (simp add: rerunEffect_def effectBody_def effectCleanup_def triggered_append
      split: option.split)

lemma released_rerunEffect: "released (trace (rerunEffect s)) = released (trace s)"
  by (simp add: rerunEffect_def effectBody_def effectCleanup_def released_append
      split: option.split)

lemma triggered_map_ConsoleLog: "triggered (map ConsoleLog ls) = []"
  by (induction ls) simp_all

lemma released_map_ConsoleLog: "released (map ConsoleLog ls) = []"
  by (induction ls) simp_all

lemma triggered_afterWakeLock:
  "triggered (trace (triggerRing_afterWakeLock k nav hidden s)) = triggered (trace s)"
  by (simp add: triggerRing_afterWakeLock_def triggered_append triggered_map_ConsoleLog
      split: option.split suspended.split prod.split settled.split)

lemma triggered_afterAudio:
  "triggered (trace (triggerRing_afterAudio k outcome s)) = triggered (trace s)"
  by (simp add: triggerRing_afterAudio_def triggered_append triggered_rerunEffect
      split: option.split suspended.split prod.split settled.split)

lemma triggered_releaseWakeLock: "triggered (releaseWakeLock wl) = []"
  by (simp add: releaseWakeLock_def split: option.split)

lemma triggered_handleRingOff: "triggered (trace (handleRingOff s)) = triggered (trace s)"
  by (simp add: handleRingOff_def Let_def triggered_append triggered_releaseWakeLock)

lemma triggered_ringOffTimeout: "triggered (trace (ringOffTimeout s)) = triggered (trace s)"
  by (simp add: ringOffTimeout_def)

lemma triggered_tick:
  assumes "armed s"
  shows "triggered (trace (tick check i now s)) =
    triggered (trace s) @
    (if hasCleanup s \<and> intervalRef s = Some i
     then filter (\<lambda>sg. check sg (antidelaySeconds s) now \<and> getSignalId sg \<notin> alreadyRangIds s)
            (savedSignals s)
     else [])"
proof (cases "savedSignals s = []")
  case True
  with assms have "timers s = []" "\<not> hasCleanup s" by (simp_all add: armed_def)
  then show ?thesis by (simp add: tick_def)
next
  case False
  with assms obtain j where j: "hasCleanup s" "intervalRef s = Some j" "timers s = [(j, closureOf s)]"
    by (auto simp add: armed_def split: option.splits)
  show ?thesis
  proof (cases "i = j")
    case True
    then show ?thesis using j
      by (simp add: tick_def triggered_intervalCallback closureOf_def)
  next
    case False
    then show ?thesis using j by (simp add: tick_def)
  qed
qed

lemma triggered_step_other:
  "\<forall>i now. e \<noteq> Tick i now \<Longrightarrow> triggered (trace (step check e s)) = triggered (trace s)"
  by (cases e)
    (simp_all add: triggered_afterWakeLock triggered_afterAudio triggered_handleRingOff
      triggered_ringOffTimeout triggered_rerunEffect)

lemma alreadyRangIds_intervalCallback:
  "alreadyRangIds (intervalCallback check c now s) = alreadyRangIds s"
  using effectPart_intervalCallback[of check c now s] by (simp add: effectPart_def)

lemma alreadyRangIds_step_mono: "alreadyRangIds s \<subseteq> alreadyRangIds (step check e s)"
proof (cases e)
  case (Tick i now)
  then show ?thesis using effectPart_tick[of check i now s] by (simp add: effectPart_def)
next
  case (WakeLockSettled k nav hidden)
  then show ?thesis using effectPart_afterWakeLock[of k nav hidden s] by (simp add: effectPart_def)
next
  case (AudioSettled k outcome)
  then show ?thesis
    by (auto simp add: triggerRing_afterAudio_def rerunEffect_frame
        split: option.split suspended.split prod.split settled.split)
next
  case RingOff
  then show ?thesis using effectPart_handleRingOff[of s] by (simp add: effectPart_def)
next
  case RingOffTimeout
  then show ?thesis using effectPart_ringOffTimeout[of s] by (simp add: effectPart_def)
qed (simp_all add: rerunEffect_frame)

lemma ringCalls_step:
  assumes "armed s" and "idn \<in> alreadyRangIds s"
  shows "ringCalls idn (step check e s) = ringCalls idn s"
proof (cases "\<exists>i now. e = Tick i now")
  case True
  then obtain i now where e: "e = Tick i now" by blast
  have "count_list (map getSignalId
      (filter (\<lambda>sg. check sg (antidelaySeconds s) now \<and> getSignalId sg \<notin> alreadyRangIds s)
        (savedSignals s))) idn = 0"
    using assms(2) by (simp add: count_list_0_iff) blast
  then show ?thesis
    using triggered_tick[OF assms(1), of check i now] e
    by (simp add: ringCalls_def)
next
  case False
  then show ?thesis by (simp add: ringCalls_def triggered_step_other)
qed

lemma ringCalls_run:
  "armed s \<Longrightarrow> idn \<in> alreadyRangIds s \<Longrightarrow> ringCalls idn (run check evs s) = ringCalls idn s"
proof (induction evs arbitrary: s)
  case Nil
  then show ?case by (simp add: run_def)
next
  case (Cons e evs)
  have "armed (step check e s)" using Cons.prems(1) by (rule armed_step)
  moreover have "idn \<in> alreadyRangIds (step check e s)"
    using Cons.prems(2) alreadyRangIds_step_mono by blast
  ultimately have "ringCalls idn (run check evs (step check e s)) = ringCalls idn (step check e s)"
    by (rule Cons.IH)
  then show ?case using ringCalls_step[OF Cons.prems] by (simp add: run_def)
qed

section \<open>Dismissal and the continuations of \<open>triggerRing\<close>\<close>

lemma fold_pauseAndRewind:
  "fold pauseAndRewind xs els =
     (\<lambda>a. if a \<in> set xs then \<lparr>paused = True, currentTime = 0\<rparr> else els a)"
  by (induction xs arbitrary: els) (auto simp add: pauseAndRewind_def fun_eq_iff)

lemma fold_closeContext:
  "fold closeContext xs cs = (\<lambda>c. if c \<in> set xs then Closed else cs c)"
  by (induction xs arbitrary: cs) (auto simp add: closeContext_def fun_eq_iff)

lemma released_releaseWakeLock:
  "released (releaseWakeLock wl) = (case wl of Some l \<Rightarrow> [l] | None \<Rightarrow> [])"
  by (simp add: releaseWakeLock_def split: option.split)

lemma released_handleRingOff:
  "released (trace (handleRingOff s)) =
     released (trace s) @ (if isRinging s then (case wakeLock s of Some l \<Rightarrow> [l] | None \<Rightarrow> []) else [])"
  by (simp add: handleRingOff_def Let_def released_append released_releaseWakeLock)

lemma handleRingOff_fields:
  "audioInstancesRef (handleRingOff s) = []"
  "audioContextsRef (handleRingOff s) = []"
  "isRinging (handleRingOff s) = False"
  "wakeLock (handleRingOff s) = (if isRinging s then None else wakeLock s)"
  "currentRingingSignal (handleRingOff s) = (if isRinging s then None else currentRingingSignal s)"
  "suspendedRings (handleRingOff s) = suspendedRings s"
  "alreadyRangIds (handleRingOff s) = alreadyRangIds s"
  "documentAudio (handleRingOff s) = documentAudio s"
  "elements (handleRingOff s) =
     (\<lambda>a. if a \<in> set (audioInstancesRef s) \<union> set (documentAudio s)
          then \<lparr>paused = True, currentTime = 0\<rparr> else elements s a)"
  "contexts (handleRingOff s) =
     (\<lambda>c. if c \<in> set (audioContextsRef s) then Closed else contexts s c)"
  by (auto simp add: handleRingOff_def Let_def fold_pauseAndRewind fold_closeContext fun_eq_iff)

lemma dismissed_run:
  "\<not> isRinging s \<Longrightarrow>
   \<not> isRinging (run check (replicate n RingOff) s) \<and>
   released (trace (run check (replicate n RingOff) s)) = released (trace s)"
proof (induction n arbitrary: s)
  case 0
  then show ?case by (simp add: run_def)
next
  case (Suc n)
  have "\<not> isRinging (handleRingOff s)" by (simp add: handleRingOff_fields)
  moreover have "released (trace (handleRingOff s)) = released (trace s)"
    using Suc.prems by (simp add: released_handleRingOff)
  ultimately show ?case using Suc.IH[of "handleRingOff s"] by (simp add: run_def)
qed

lemma triggerRing_fields:
  "isRinging (triggerRing ring sg s)"
  "currentRingingSignal (triggerRing ring sg s) = Some sg"
  "suspendedRings (triggerRing ring sg s) (nextCall s) = Some (AtWakeLock sg ring)"
  "alreadyRangIds (triggerRing ring sg s) = alreadyRangIds s"
  "wakeLock (triggerRing ring sg s) = wakeLock s"
  by (simp_all add: triggerRing_def)

lemma afterWakeLock_granted:
  assumes "suspendedRings s k = Some (AtWakeLock sg ring)"
  shows "triggerRing_afterWakeLock k (WakeLockApi (Fulfilled lock)) hidden s =
     s\<lparr>wakeLock := Some lock,
       suspendedRings := (suspendedRings s)(k \<mapsto> AtAudio sg ring),
       trace := trace s @ [ConsoleLog ''Screen wake lock acquired''] @
         (if hidden then [WindowFocus] else []) @
         [ConsoleLog ''About to call playCustomRingtone'', CallPlayCustomRingtone ring]\<rparr>"
  using assms by (simp add: triggerRing_afterWakeLock_def requestWakeLock_def)

lemma afterWakeLock_failed:
  assumes "suspendedRings s k = Some (AtWakeLock sg ring)"
    and "nav = NoWakeLockApi \<or> nav = WakeLockApi (Rejected err)"
  shows "triggerRing_afterWakeLock k nav hidden s =
     s\<lparr>wakeLock := None,
       suspendedRings := (suspendedRings s)(k \<mapsto> AtAudio sg ring),
       trace := trace s @ map ConsoleLog (fst (requestWakeLock nav)) @
         (if hidden then [WindowFocus] else []) @
         [ConsoleLog ''About to call playCustomRingtone'', CallPlayCustomRingtone ring]\<rparr>"
  using assms by (auto simp add: triggerRing_afterWakeLock_def requestWakeLock_def)

lemma isRinging_afterWakeLock:
  "isRinging (triggerRing_afterWakeLock k nav hidden s) = isRinging s"
  by (simp add: triggerRing_afterWakeLock_def
      split: option.split suspended.split prod.split settled.split)

lemma isRinging_afterAudio:
  "isRinging (triggerRing_afterAudio k outcome s) = isRinging s"
  by (simp add: triggerRing_afterAudio_def rerunEffect_frame
      split: option.split suspended.split prod.split settled.split)

lemma afterAudio_marks:
  assumes "suspendedRings s k = Some (AtAudio sg ring)"
  shows "alreadyRangIds (triggerRing_afterAudio k (Fulfilled v) s) =
     insert (getSignalId sg) (alreadyRangIds s)"
  using assms by (cases v) (simp add: triggerRing_afterAudio_def rerunEffect_frame)

lemma afterWakeLock_continues:
  assumes "suspendedRings s k = Some (AtWakeLock sg ring)"
  shows "suspendedRings (triggerRing_afterWakeLock k nav hidden s) k = Some (AtAudio sg ring)"
    and "currentRingingSignal (triggerRing_afterWakeLock k nav hidden s) = currentRingingSignal s"
    and "audioInstancesRef (triggerRing_afterWakeLock k nav hidden s) = audioInstancesRef s"
    and "audioContextsRef (triggerRing_afterWakeLock k nav hidden s) = audioContextsRef s"
  using assms
  by (simp_all add: triggerRing_afterWakeLock_def requestWakeLock_def
      split: navigator.split settled.split)

lemma afterAudio_rejected:
  assumes "suspendedRings s k = Some (AtAudio sg ring)"
  shows "triggerRing_afterAudio k (Rejected e) s =
     s\<lparr>suspendedRings := (suspendedRings s)(k := None),
       trace := trace s @ [UnhandledRejection e]\<rparr>"
  using assms by (simp add: triggerRing_afterAudio_def)

section \<open>The concrete runs, evaluated\<close>

lemma rearmed_eval:
  "getSignalId eurusd \<in> alreadyRangIds rearmed"
  "ringCalls (getSignalId eurusd) rearmed = 1"
  "savedSignals rearmed = [eurusd]"
  "nextTimer rearmed = 3"
  "intervalRef rearmed = Some 2"
  "antidelaySeconds rearmed = 0"
  "audioInstancesRef rearmed = [3]"
  "isRinging rearmed"
  "wakeLock rearmed = Some 7"
  "released (trace rearmed) = []"
  by (simp_all add: rearmed_def hook_defs)

lemma twoRings_eval:
  "isRinging twoRings" "wakeLock twoRings = Some 8"
  "triggered (trace twoRings) = [eurusd, gbpusd]" "released (trace twoRings) = []"
  by (simp_all add: twoRings_def gbpusd_def hook_defs)

section \<open>The claims\<close>

subsection \<open>C1\<close>

text \<open>
  C1. The claim: on detection the identity is recorded in \<open>alreadyRangIds\<close> and the
  ringing flag is set before anything is awaited, so that a slow acquisition cannot make the
  same identity fire again on the next tick. The code sets the flag before the first
  \<open>await\<close> but records the identity only after the second. In the run \<open>firedTwice\<close> the
  wake-lock request of the first tick is still pending when the second tick finds the
  signal due: the flag is set, the set of identities is empty, and \<open>triggerRing\<close> has been
  called twice for the one signal.
\<close>

theorem slow_acquisition_fires_twice:
  "isRinging firedTwice \<and> alreadyRangIds firedTwice = {} \<and>
   triggered (trace firedTwice) = [eurusd, eurusd] \<and>
   ringCalls (getSignalId eurusd) firedTwice = 2"
  by (simp add: firedTwice_def hook_defs)

subsection \<open>C2\<close>

text \<open>
  C2. Once an identity is in \<open>alreadyRangIds\<close>, nothing that happens afterwards (ticks of
  any timer at any instant, settled promises, dismissals, saved lists, a changed antidelay or
  ringtone) calls \<open>triggerRing\<close> again for a signal of that identity, whatever the trigger
  evaluator \<open>check\<close> answers: the number of calls for it stays what it was.
\<close>

theorem marked_identity_rings_once:
  assumes "idn \<in> alreadyRangIds (run check evs0 (mount sigs d ring))"
  shows "ringCalls idn (run check evs (run check evs0 (mount sigs d ring))) =
         ringCalls idn (run check evs0 (mount sigs d ring))"
  using armed_run[OF armed_mount] assms by (rule ringCalls_run)

theorem marked_identity_rings_once_witness:
  "getSignalId eurusd \<in> alreadyRangIds
     (run alwaysDue
        [Tick 1 100, WakeLockSettled 0 (WakeLockApi (Fulfilled 7)) False,
         AudioSettled 0 (Fulfilled (HTMLAudioElement 3, []))]
        (mount [eurusd] 0 None)) \<and>
   ringCalls (getSignalId eurusd)
     (run alwaysDue [Tick 2 101, Tick 2 102]
        (run alwaysDue
           [Tick 1 100, WakeLockSettled 0 (WakeLockApi (Fulfilled 7)) False,
            AudioSettled 0 (Fulfilled (HTMLAudioElement 3, []))]
           (mount [eurusd] 0 None))) = 1"
proof -
  have m: "getSignalId eurusd \<in> alreadyRangIds
     (run alwaysDue
        [Tick 1 100, WakeLockSettled 0 (WakeLockApi (Fulfilled 7)) False,
         AudioSettled 0 (Fulfilled (HTMLAudioElement 3, []))]
        (mount [eurusd] 0 None))"
    by (simp add: hook_defs)
  have c: "ringCalls (getSignalId eurusd)
     (run alwaysDue
        [Tick 1 100, WakeLockSettled 0 (WakeLockApi (Fulfilled 7)) False,
         AudioSettled 0 (Fulfilled (HTMLAudioElement 3, []))]
        (mount [eurusd] 0 None)) = 1"
    by (simp add: hook_defs)
  show ?thesis
    using m c marked_identity_rings_once[OF m, of "[Tick 2 101, Tick 2 102]"] by simp
qed

subsection \<open>C3\<close>

text \<open>
  C3, as amended. After \<open>handleRingOff\<close>, in whatever state it is called, both tracked
  collections are empty, every element that was tracked is paused and rewound, every context
  that was tracked is closed, and the ringing flag is false. The stored wake lock is released
  and set to \<open>null\<close> if the ringing flag was set when the handler was called; otherwise it is
  left as it was. A second call right after the first changes none of this and releases
  nothing more.
\<close>

theorem dismiss_clears_tracking:
  "(let s' = handleRingOff s; s'' = handleRingOff s' in
      audioInstancesRef s' = [] \<and> audioContextsRef s' = [] \<and> \<not> isRinging s' \<and>
      (\<forall>a \<in> set (audioInstancesRef s). paused (elements s' a) \<and> currentTime (elements s' a) = 0) \<and>
      (\<forall>c \<in> set (audioContextsRef s). contexts s' c = Closed) \<and>
      (isRinging s \<longrightarrow>
         wakeLock s' = None \<and> currentRingingSignal s' = None \<and>
         released (trace s') = released (trace s) @ (case wakeLock s of Some l \<Rightarrow> [l] | None \<Rightarrow> [])) \<and>
      (\<not> isRinging s \<longrightarrow>
         wakeLock s' = wakeLock s \<and> released (trace s') = released (trace s)) \<and>
      audioInstancesRef s'' = [] \<and> audioContextsRef s'' = [] \<and> \<not> isRinging s'' \<and>
      elements s'' = elements s' \<and> contexts s'' = contexts s' \<and>
      wakeLock s'' = wakeLock s' \<and> currentRingingSignal s'' = currentRingingSignal s' \<and>
      released (trace s'') = released (trace s'))"
  unfolding Let_def
  by (simp add: handleRingOff_fields released_handleRingOff fun_eq_iff)

theorem dismiss_clears_tracking_witness:
  "3 \<in> set (audioInstancesRef rearmed) \<and> isRinging rearmed \<and>
   paused (elements (handleRingOff rearmed) 3) \<and>
   currentTime (elements (handleRingOff rearmed) 3) = 0 \<and>
   wakeLock (handleRingOff rearmed) = None \<and>
   released (trace (handleRingOff rearmed)) = [7] \<and>
   \<not> isRinging (handleRingOff rearmed) \<and>
   wakeLock (handleRingOff (handleRingOff rearmed)) = None \<and>
   released (trace (handleRingOff (handleRingOff rearmed))) = [7]"
  using dismiss_clears_tracking[of rearmed]
  by (simp add: Let_def rearmed_eval)

text \<open>
  C3 as stated fails: in \<open>dismissedInFlight\<close> the ringing flag is false and a wake lock is
  stored, and \<open>handleRingOff\<close> leaves it stored.
\<close>

theorem dismiss_leaves_late_wake_lock:
  "\<not> isRinging dismissedInFlight \<and> wakeLock (handleRingOff dismissedInFlight) = Some 7"
  by (simp add: dismissedInFlight_def hook_defs Let_def)

subsection \<open>C4\<close>

text \<open>
  C4, as amended. When \<open>handleRingOff\<close> runs while the wake-lock request of a
  \<open>triggerRing\<close> invocation is pending, it resets the ringing flag, releases what was stored
  if the flag was set, and leaves the invocation pending. When the request is then granted,
  the continuation consults no flag: it stores the sentinel and releases nothing, and a
  further \<open>handleRingOff\<close>, finding the flag false, leaves the sentinel stored and
  unreleased.
\<close>

theorem late_wake_lock_is_kept:
  assumes "suspendedRings s k = Some (AtWakeLock sg ring)"
  shows "(let d = handleRingOff s;
              s' = triggerRing_afterWakeLock k (WakeLockApi (Fulfilled lock)) hidden d in
     \<not> isRinging d \<and> suspendedRings d k = Some (AtWakeLock sg ring) \<and>
     released (trace d) =
       released (trace s) @
       (if isRinging s then (case wakeLock s of Some l \<Rightarrow> [l] | None \<Rightarrow> []) else []) \<and>
     \<not> isRinging s' \<and> wakeLock s' = Some lock \<and> released (trace s') = released (trace d) \<and>
     wakeLock (handleRingOff s') = Some lock \<and>
     released (trace (handleRingOff s')) = released (trace d))"
proof -
  define d where "d = handleRingOff s"
  define s' where "s' = triggerRing_afterWakeLock k (WakeLockApi (Fulfilled lock)) hidden d"
  have k: "suspendedRings d k = Some (AtWakeLock sg ring)"
    using assms by (simp add: d_def handleRingOff_fields)
  have r: "\<not> isRinging d" by (simp add: d_def handleRingOff_fields)
  have rd: "released (trace d) =
       released (trace s) @
       (if isRinging s then (case wakeLock s of Some l \<Rightarrow> [l] | None \<Rightarrow> []) else [])"
    by (simp add: d_def released_handleRingOff)
  have r': "\<not> isRinging s'" using r by (simp add: s'_def isRinging_afterWakeLock)
  have w': "wakeLock s' = Some lock"
    by (simp add: s'_def afterWakeLock_granted[OF k])
  have t': "released (trace s') = released (trace d)"
    by (simp add: s'_def afterWakeLock_granted[OF k] released_append)
  have w'': "wakeLock (handleRingOff s') = Some lock"
    using r' w' by (simp add: handleRingOff_fields)
  have t'': "released (trace (handleRingOff s')) = released (trace d)"
    using r' t' by (simp add: released_handleRingOff)
  show ?thesis
    unfolding Let_def d_def[symmetric] s'_def[symmetric]
    using r k rd r' w' t' w'' t'' by simp
qed

theorem late_wake_lock_is_kept_witness:
  "suspendedRings (run alwaysDue [Tick 1 100] (mount [eurusd] 0 None)) 0 = Some (AtWakeLock eurusd None) \<and>
   wakeLock (triggerRing_afterWakeLock 0 (WakeLockApi (Fulfilled 7)) False
      (handleRingOff (run alwaysDue [Tick 1 100] (mount [eurusd] 0 None)))) = Some 7"
proof -
  have h: "suspendedRings (run alwaysDue [Tick 1 100] (mount [eurusd] 0 None)) 0 =
      Some (AtWakeLock eurusd None)"
    by (simp add: hook_defs)
  show ?thesis
    using h late_wake_lock_is_kept[OF h, of 7 False] by (simp add: Let_def)
qed

text \<open>
  C4 as stated fails: in \<open>dismissedInFlight\<close> the sentinel granted after the dismissal is
  stored, nothing has been released, and another dismissal releases nothing either.
\<close>

theorem late_wake_lock_left_dangling:
  "\<not> isRinging dismissedInFlight \<and> wakeLock dismissedInFlight = Some 7 \<and>
   released (trace dismissedInFlight) = [] \<and>
   released (trace (handleRingOff dismissedInFlight)) = []"
  by (simp add: dismissedInFlight_def hook_defs Let_def)

subsection \<open>C5\<close>

text \<open>
  C5, as amended. Whatever the browser answers to the wake-lock request and however the
  audio start settles, the ringing flag set on entry is true after each of the three stages
  of the entry, and \<open>handleRingOff\<close> after any of them resets the flag, the ringing signal
  and the wake lock and empties both collections. A wake-lock acquisition that fails (no
  API, or the request is denied) still resolves, to \<open>null\<close>, a denial is written to the
  console, and in every case the entry goes on to the audio start. An audio start that
  rejects leaves the ringing signal, the stored wake lock and the tracked collections as
  they were.
\<close>

theorem failed_acquisition_still_rings:
  "(let k = nextCall s;
        s1 = triggerRing ring sg s;
        s2 = triggerRing_afterWakeLock k nav hidden s1;
        s3 = triggerRing_afterAudio k outcome s2 in
     isRinging s1 \<and> isRinging s2 \<and> isRinging s3 \<and>
     suspendedRings s2 k = Some (AtAudio sg ring) \<and>
     (nav = NoWakeLockApi \<or> nav = WakeLockApi (Rejected err) \<longrightarrow>
        snd (requestWakeLock nav) = Fulfilled None \<and> wakeLock s2 = None) \<and>
     (nav = WakeLockApi (Rejected err) \<longrightarrow>
        ConsoleLog (''Wake lock not supported: '' @ err) \<in> set (trace s2)) \<and>
     (\<forall>e. outcome = Rejected e \<longrightarrow>
        currentRingingSignal s3 = Some sg \<and> wakeLock s3 = wakeLock s2 \<and>
        audioInstancesRef s3 = audioInstancesRef s \<and>
        audioContextsRef s3 = audioContextsRef s) \<and>
     (\<forall>t \<in> {s1, s2, s3}.
        \<not> isRinging (handleRingOff t) \<and> currentRingingSignal (handleRingOff t) = None \<and>
        wakeLock (handleRingOff t) = None \<and> audioInstancesRef (handleRingOff t) = [] \<and>
        audioContextsRef (handleRingOff t) = []))"
proof -
  define k where "k = nextCall s"
  define s1 where "s1 = triggerRing ring sg s"
  define s2 where "s2 = triggerRing_afterWakeLock k nav hidden s1"
  define s3 where "s3 = triggerRing_afterAudio k outcome s2"
  have r1: "isRinging s1" by (simp add: s1_def triggerRing_fields)
  have k1: "suspendedRings s1 k = Some (AtWakeLock sg ring)"
    by (simp add: s1_def k_def triggerRing_fields)
  have f1: "currentRingingSignal s1 = Some sg" "audioInstancesRef s1 = audioInstancesRef s"
    "audioContextsRef s1 = audioContextsRef s"
    by (simp_all add: s1_def triggerRing_def)
  have r2: "isRinging s2" using r1 by (simp add: s2_def isRinging_afterWakeLock)
  have r3: "isRinging s3" using r2 by (simp add: s3_def isRinging_afterAudio)
  have k2: "suspendedRings s2 k = Some (AtAudio sg ring)"
    unfolding s2_def using k1 by (rule afterWakeLock_continues)
  have f2: "currentRingingSignal s2 = Some sg" "audioInstancesRef s2 = audioInstancesRef s"
    "audioContextsRef s2 = audioContextsRef s"
    using f1 by (simp_all add: s2_def afterWakeLock_continues[OF k1])
  have w2: "snd (requestWakeLock nav) = Fulfilled None \<and> wakeLock s2 = None"
    if n: "nav = NoWakeLockApi \<or> nav = WakeLockApi (Rejected err)"
  proof -
    have "snd (requestWakeLock nav) = Fulfilled None"
      using n by (auto simp add: requestWakeLock_def)
    moreover have "wakeLock s2 = None"
      by (simp add: s2_def afterWakeLock_failed[OF k1 n])
    ultimately show ?thesis by simp
  qed
  have l2: "ConsoleLog (''Wake lock not supported: '' @ err) \<in> set (trace s2)"
    if n: "nav = WakeLockApi (Rejected err)"
  proof -
    have "nav = NoWakeLockApi \<or> nav = WakeLockApi (Rejected err)" using n by simp
    from afterWakeLock_failed[OF k1 this] show ?thesis
      using n by (simp add: s2_def requestWakeLock_def)
  qed
  have a3: "currentRingingSignal s3 = Some sg \<and> wakeLock s3 = wakeLock s2 \<and>
        audioInstancesRef s3 = audioInstancesRef s \<and>
        audioContextsRef s3 = audioContextsRef s" if "outcome = Rejected e" for e
    using that f2 by (simp add: s3_def afterAudio_rejected[OF k2])
  have d: "\<not> isRinging (handleRingOff t) \<and> currentRingingSignal (handleRingOff t) = None \<and>
        wakeLock (handleRingOff t) = None \<and> audioInstancesRef (handleRingOff t) = [] \<and>
        audioContextsRef (handleRingOff t) = []" if "isRinging t" for t
    using that by (simp add: handleRingOff_fields)
  show ?thesis
    unfolding Let_def k_def[symmetric] s1_def[symmetric] s2_def[symmetric] s3_def[symmetric]
    using r1 r2 r3 k2 w2 l2 a3 d[OF r1] d[OF r2] d[OF r3] by simp
qed

theorem failed_acquisition_still_rings_witness:
  "isRinging
     (triggerRing_afterAudio 0 (Rejected ''NotSupportedError'')
        (triggerRing_afterWakeLock 0 (WakeLockApi (Fulfilled 7)) False
           (triggerRing None eurusd (mount [eurusd] 0 None)))) \<and>
   wakeLock
     (triggerRing_afterAudio 0 (Rejected ''NotSupportedError'')
        (triggerRing_afterWakeLock 0 (WakeLockApi (Fulfilled 7)) False
           (triggerRing None eurusd (mount [eurusd] 0 None)))) = Some 7 \<and>
   \<not> isRinging (handleRingOff
     (triggerRing_afterAudio 0 (Rejected ''NotSupportedError'')
        (triggerRing_afterWakeLock 0 (WakeLockApi (Fulfilled 7)) False
           (triggerRing None eurusd (mount [eurusd] 0 None))))) \<and>
   wakeLock (handleRingOff
     (triggerRing_afterAudio 0 (Rejected ''NotSupportedError'')
        (triggerRing_afterWakeLock 0 (WakeLockApi (Fulfilled 7)) False
           (triggerRing None eurusd (mount [eurusd] 0 None))))) = None \<and>
   isRinging
     (triggerRing_afterAudio 0 (Fulfilled (NotAnElement, []))
        (triggerRing_afterWakeLock 0 (WakeLockApi (Rejected ''NotAllowedError'')) False
           (triggerRing None eurusd (mount [eurusd] 0 None)))) \<and>
   wakeLock
     (triggerRing_afterWakeLock 0 (WakeLockApi (Rejected ''NotAllowedError'')) False
        (triggerRing None eurusd (mount [eurusd] 0 None))) = None \<and>
   ConsoleLog ''Wake lock not supported: NotAllowedError'' \<in> set (trace
     (triggerRing_afterWakeLock 0 (WakeLockApi (Rejected ''NotAllowedError'')) False
        (triggerRing None eurusd (mount [eurusd] 0 None))))"
proof -
  have n: "nextCall (mount [eurusd] 0 None) = 0" by (simp add: mount_def effectBody_def)
  have g: "wakeLock
     (triggerRing_afterWakeLock 0 (WakeLockApi (Fulfilled 7)) False
        (triggerRing None eurusd (mount [eurusd] 0 None))) = Some 7"
    by (simp add: afterWakeLock_granted[OF triggerRing_fields(3)[of None eurusd
            "mount [eurusd] 0 None", unfolded n]])
  show ?thesis
    using g
      failed_acquisition_still_rings[of "mount [eurusd] 0 None" None eurusd
        "WakeLockApi (Fulfilled 7)" False "Rejected ''NotSupportedError''" "''x''"]
      failed_acquisition_still_rings[of "mount [eurusd] 0 None" None eurusd
        "WakeLockApi (Rejected ''NotAllowedError'')" False "Fulfilled (NotAnElement, [])"
        "''NotAllowedError''"]
    by (simp add: Let_def n)
qed

text \<open>
  C5 as stated fails: in \<open>failedEntry\<close>, where the audio-start call rejects, the ringing flag
  is set and the identity of the signal is not in \<open>alreadyRangIds\<close>; and in
  \<open>unsupportedEntry\<close>, where the wake lock cannot be acquired for want of the API, the
  console lines of the entry are the usual ones, with none about the failure.
\<close>

theorem rejected_audio_leaves_identity_unmarked:
  "isRinging failedEntry \<and> getSignalId eurusd \<notin> alreadyRangIds failedEntry \<and>
   wakeLock unsupportedEntry = None \<and>
   trace unsupportedEntry =
     [ConsoleLog ''Setting up signal checking interval...'', SetInterval 1,
      ConsoleLog ''Signal time reached, triggering ring for'', CallTriggerRing eurusd,
      ConsoleLog ''TRIGGER RING - Custom ringtone available'',
      ConsoleLog ''Custom ringtone data length'', CallRequestWakeLock,
      ConsoleLog ''About to call playCustomRingtone'', CallPlayCustomRingtone None]"
  by (simp add: failedEntry_def unsupportedEntry_def hook_defs)

subsection \<open>C6\<close>

text \<open>
  C6, as amended. \<open>requestWakeLock\<close> never rejects: on every browser its promise is
  fulfilled. Without the wake-lock API it resolves to \<open>null\<close> and writes nothing to the
  console; when the request is denied it resolves to \<open>null\<close> and writes the error to the
  console. \<open>releaseWakeLock(null)\<close> does nothing.
\<close>

theorem wake_lock_utils_do_not_throw:
  "(\<exists>lock. snd (requestWakeLock nav) = Fulfilled lock) \<and>
   requestWakeLock NoWakeLockApi = ([], Fulfilled None) \<and>
   requestWakeLock (WakeLockApi (Rejected err)) =
     ([''Wake lock not supported: '' @ err], Fulfilled None) \<and>
   releaseWakeLock None = []"
  by (simp add: requestWakeLock_def releaseWakeLock_def split: navigator.split settled.split)

text \<open>
  C6 as stated fails in one detail: without the wake-lock API the result is \<open>null\<close>, and
  nothing is logged.
\<close>

theorem unsupported_platform_is_not_logged:
  "snd (requestWakeLock NoWakeLockApi) = Fulfilled None \<and> fst (requestWakeLock NoWakeLockApi) = []"
  by (simp add: requestWakeLock_def)

subsection \<open>C7\<close>

text \<open>
  C7. Each time the effect on \<open>[savedSignals]\<close> runs, \<open>startBackgroundTask\<close> is called
  exactly when the list is non-empty and the collaborator answered that it is not active,
  and then once; the cleanup never calls it; \<open>stopBackgroundTask\<close> is called by the body
  exactly when the list is empty, and by the cleanup only for a render whose list was
  empty.
\<close>

theorem keep_alive_started_when_inactive:
  "(StartBackgroundTask \<in> set (backgroundEffect sigs isActive controller) \<longleftrightarrow>
      sigs \<noteq> [] \<and> \<not> isActive) \<and>
   count_list (backgroundEffect sigs isActive controller) StartBackgroundTask \<le> 1 \<and>
   (StopBackgroundTask \<in> set (backgroundEffect sigs isActive controller) \<longleftrightarrow> sigs = []) \<and>
   StartBackgroundTask \<notin> set (backgroundCleanup old a1) \<and>
   (StopBackgroundTask \<in> set (backgroundCleanup old a1) \<longleftrightarrow> a1 \<and> old = []) \<and>
   (StartBackgroundTask \<in> set (backgroundRerun old sigs a1 isActive controller) \<longleftrightarrow>
      sigs \<noteq> [] \<and> \<not> isActive) \<and>
   count_list (backgroundRerun old sigs a1 isActive controller) StartBackgroundTask \<le> 1 \<and>
   (sigs = [] \<longrightarrow> StopBackgroundTask \<in> set (backgroundRerun old sigs a1 isActive controller))"
  by (simp add: backgroundEffect_def backgroundCleanup_def backgroundRerun_def)

theorem keep_alive_started_when_inactive_witness:
  "backgroundRerun [] [eurusd] False False True =
     [GetBackgroundTaskStatus, GetBackgroundTaskStatus, StartBackgroundTask,
      ScheduleAllSignalNotifications [eurusd], PostRegisterBackgroundSync] \<and>
   StartBackgroundTask \<notin> set (backgroundRerun [eurusd] [eurusd, eurusd] True True True) \<and>
   StopBackgroundTask \<in> set (backgroundRerun [eurusd] [] True True True)"
  using keep_alive_started_when_inactive[of "[eurusd]" False True "[]" False]
    keep_alive_started_when_inactive[of "[eurusd, eurusd]" True True "[eurusd]" True]
    keep_alive_started_when_inactive[of "[]" True True "[eurusd]" True]
  by (simp add: backgroundEffect_def backgroundCleanup_def backgroundRerun_def)

subsection \<open>C8\<close>

text \<open>
  C8. In every state the hook reaches from its mount, at most one interval is alive; none is
  alive exactly when no signal is saved; and with a signal saved the live one is the one
  \<open>intervalRef\<close> holds, with the current values captured. From such a state, saving a
  non-empty list or changing the antidelay clears that interval and creates a new one under
  a fresh handle, and saving the empty list clears it and creates none.
\<close>

theorem interval_rearmed_and_cancelled:
  "(let s = run check evs (mount sigs d ring) in
     (timers s = [] \<longleftrightarrow> savedSignals s = []) \<and>
     length (timers s) \<le> 1 \<and>
     (savedSignals s \<noteq> [] \<longrightarrow>
        (\<exists>i. intervalRef s = Some i \<and> i < nextTimer s \<and> timers s = [(i, closureOf s)] \<and>
           (sigs' \<noteq> [] \<longrightarrow>
              timers (step check (SaveSignals sigs') s) =
                [(nextTimer s, closureOf (s\<lparr>savedSignals := sigs'\<rparr>))] \<and>
              trace (step check (SaveSignals sigs') s) =
                trace s @ [ClearInterval i, ConsoleLog ''Setting up signal checking interval...'',
                           SetInterval (nextTimer s)]) \<and>
           (d' \<noteq> antidelaySeconds s \<longrightarrow>
              timers (step check (SetAntidelay d') s) =
                [(nextTimer s, closureOf (s\<lparr>antidelaySeconds := d'\<rparr>))] \<and>
              trace (step check (SetAntidelay d') s) =
                trace s @ [ClearInterval i, ConsoleLog ''Setting up signal checking interval...'',
                           SetInterval (nextTimer s)]) \<and>
           timers (step check (SaveSignals []) s) = [] \<and>
           trace (step check (SaveSignals []) s) = trace s @ [ClearInterval i])))"
proof -
  define s where "s = run check evs (mount sigs d ring)"
  have a: "armed s" unfolding s_def by (rule armed_run[OF armed_mount])
  have e: "timers s = [] \<longleftrightarrow> savedSignals s = []"
    using a by (auto simp add: armed_def split: option.splits if_splits)
  have l: "length (timers s) \<le> 1"
    using a by (auto simp add: armed_def split: option.splits if_splits)
  have r: "\<exists>i. intervalRef s = Some i \<and> i < nextTimer s \<and> timers s = [(i, closureOf s)] \<and>
           (sigs' \<noteq> [] \<longrightarrow>
              timers (step check (SaveSignals sigs') s) =
                [(nextTimer s, closureOf (s\<lparr>savedSignals := sigs'\<rparr>))] \<and>
              trace (step check (SaveSignals sigs') s) =
                trace s @ [ClearInterval i, ConsoleLog ''Setting up signal checking interval...'',
                           SetInterval (nextTimer s)]) \<and>
           (d' \<noteq> antidelaySeconds s \<longrightarrow>
              timers (step check (SetAntidelay d') s) =
                [(nextTimer s, closureOf (s\<lparr>antidelaySeconds := d'\<rparr>))] \<and>
              trace (step check (SetAntidelay d') s) =
                trace s @ [ClearInterval i, ConsoleLog ''Setting up signal checking interval...'',
                           SetInterval (nextTimer s)]) \<and>
           timers (step check (SaveSignals []) s) = [] \<and>
           trace (step check (SaveSignals []) s) = trace s @ [ClearInterval i]"
    if ne: "savedSignals s \<noteq> []"
  proof -
    from a ne obtain i where i: "hasCleanup s" "intervalRef s = Some i" "i < nextTimer s"
      "timers s = [(i, closureOf s)]"
      by (auto simp add: armed_def split: option.splits)
    have 1: "timers (step check (SaveSignals sigs') s) =
                [(nextTimer s, closureOf (s\<lparr>savedSignals := sigs'\<rparr>))] \<and>
              trace (step check (SaveSignals sigs') s) =
                trace s @ [ClearInterval i, ConsoleLog ''Setting up signal checking interval...'',
                           SetInterval (nextTimer s)]" if "sigs' \<noteq> []"
      using i that by (simp add: rerunEffect_def effectBody_def effectCleanup_def closureOf_def)
    have 2: "timers (step check (SetAntidelay d') s) =
                [(nextTimer s, closureOf (s\<lparr>antidelaySeconds := d'\<rparr>))] \<and>
              trace (step check (SetAntidelay d') s) =
                trace s @ [ClearInterval i, ConsoleLog ''Setting up signal checking interval...'',
                           SetInterval (nextTimer s)]" if "d' \<noteq> antidelaySeconds s"
      using i that ne by (simp add: rerunEffect_def effectBody_def effectCleanup_def closureOf_def)
    have 3: "timers (step check (SaveSignals []) s) = [] \<and>
           trace (step check (SaveSignals []) s) = trace s @ [ClearInterval i]"
      using i by (simp add: rerunEffect_def effectBody_def effectCleanup_def)
    show ?thesis using i 1 2 3 by blast
  qed
  show ?thesis
    unfolding Let_def s_def[symmetric] using e l r by blast
qed

theorem interval_rearmed_and_cancelled_witness:
  "savedSignals rearmed \<noteq> [] \<and> [eurusd, eurusd] \<noteq> [] \<and> 30 \<noteq> antidelaySeconds rearmed \<and>
   map fst (timers rearmed) = [2] \<and>
   map fst (timers (step alwaysDue (SaveSignals [eurusd, eurusd]) rearmed)) = [3] \<and>
   map fst (timers (step alwaysDue (SetAntidelay 30) rearmed)) = [3] \<and>
   timers (step alwaysDue (SaveSignals []) rearmed) = []"
  using interval_rearmed_and_cancelled[of alwaysDue
      "[Tick 1 100, WakeLockSettled 0 (WakeLockApi (Fulfilled 7)) False,
        AudioSettled 0 (Fulfilled (HTMLAudioElement 3, []))]" "[eurusd]" 0 None
      "[eurusd, eurusd]" 30, folded rearmed_def]
  by (simp add: Let_def rearmed_eval)

subsection \<open>C9\<close>

text \<open>
  C9. \<open>SetAntidelay\<close> leaves \<open>alreadyRangIds\<close> as it is, in any state. And in a state reached
  from the mount, an identity that is marked stays marked after the change and after any
  events that follow it, and \<open>triggerRing\<close> is not called for it again.
\<close>

theorem antidelay_change_keeps_marks:
  "alreadyRangIds (step check (SetAntidelay d') s) = alreadyRangIds s \<and>
   (let s0 = run check evs0 (mount sigs d ring) in
      idn \<in> alreadyRangIds s0 \<longrightarrow>
        idn \<in> alreadyRangIds (run check (SetAntidelay d' # evs) s0) \<and>
        ringCalls idn (run check (SetAntidelay d' # evs) s0) = ringCalls idn s0)"
proof -
  have 1: "alreadyRangIds (step check (SetAntidelay d') s) = alreadyRangIds s" for s
    by (simp add: rerunEffect_frame)
  define s0 where "s0 = run check evs0 (mount sigs d ring)"
  have a: "armed s0" unfolding s0_def by (rule armed_run[OF armed_mount])
  have 2: "ringCalls idn (run check (SetAntidelay d' # evs) s0) = ringCalls idn s0"
    if "idn \<in> alreadyRangIds s0"
    using a that by (rule ringCalls_run)
  have m: "alreadyRangIds t \<subseteq> alreadyRangIds (run check es t)" for es t
    unfolding run_def
  proof (induction es arbitrary: t)
    case Nil
    then show ?case by simp
  next
    case (Cons e es)
    show ?case using alreadyRangIds_step_mono[of t check e] Cons.IH[of "step check e t"] by auto
  qed
  show ?thesis
    unfolding Let_def s0_def[symmetric] using 1 2 m by blast
qed

theorem antidelay_change_keeps_marks_witness:
  "getSignalId eurusd \<in> alreadyRangIds rearmed \<and>
   getSignalId eurusd \<in> alreadyRangIds (run alwaysDue [SetAntidelay 30, Tick 3 101] rearmed) \<and>
   ringCalls (getSignalId eurusd) (run alwaysDue [SetAntidelay 30, Tick 3 101] rearmed) = 1"
  using antidelay_change_keeps_marks[of alwaysDue 30 rearmed
      "[Tick 1 100, WakeLockSettled 0 (WakeLockApi (Fulfilled 7)) False,
        AudioSettled 0 (Fulfilled (HTMLAudioElement 3, []))]" "[eurusd]" 0 None
      "getSignalId eurusd" "[Tick 3 101]", folded rearmed_def]
  by (simp add: Let_def rearmed_eval)

subsection \<open>C10\<close>

text \<open>
  C10. When the wake-lock request of a \<open>triggerRing\<close> invocation is granted, the new
  sentinel replaces whatever was stored and nothing is released. \<open>handleRingOff\<close> releases
  the sentinel stored at that moment, if the ringing flag is set, and no other. In the run
  \<open>twoRings\<close> two signals have fired and the sentinels 7 and 8 were granted in turn: 8 is
  stored, nothing was released, and after any number of dismissals the released sentinels
  are 8 alone.
\<close>

theorem second_ring_overwrites_wake_lock:
  "(suspendedRings s k = Some (AtWakeLock sg ring) \<longrightarrow>
      wakeLock (triggerRing_afterWakeLock k (WakeLockApi (Fulfilled l2)) hidden s) = Some l2 \<and>
      released (trace (triggerRing_afterWakeLock k (WakeLockApi (Fulfilled l2)) hidden s)) =
        released (trace s)) \<and>
   released (trace (handleRingOff s)) =
     released (trace s) @
     (if isRinging s then (case wakeLock s of Some l \<Rightarrow> [l] | None \<Rightarrow> []) else []) \<and>
   isRinging twoRings \<and> triggered (trace twoRings) = [eurusd, gbpusd] \<and>
   wakeLock twoRings = Some 8 \<and> released (trace twoRings) = [] \<and>
   released (trace (run check (replicate (Suc n) RingOff) twoRings)) = [8]"
proof -
  have 1: "wakeLock (triggerRing_afterWakeLock k (WakeLockApi (Fulfilled l2)) hidden s) = Some l2 \<and>
      released (trace (triggerRing_afterWakeLock k (WakeLockApi (Fulfilled l2)) hidden s)) =
        released (trace s)"
    if "suspendedRings s k = Some (AtWakeLock sg ring)"
    by (simp add: afterWakeLock_granted[OF that] released_append)
  have "released (trace (handleRingOff twoRings)) = [8]"
    by (simp add: released_handleRingOff twoRings_eval)
  moreover have "\<not> isRinging (handleRingOff twoRings)" by (simp add: handleRingOff_fields)
  ultimately have 2: "released (trace (run check (replicate n RingOff) (handleRingOff twoRings))) = [8]"
    using dismissed_run[of "handleRingOff twoRings" check n] by simp
  have 3: "run check (replicate (Suc n) RingOff) twoRings =
     run check (replicate n RingOff) (handleRingOff twoRings)"
    by (simp add: run_def)
  show ?thesis
    using 1 2 3 by (simp add: released_handleRingOff twoRings_eval)
qed

theorem second_ring_overwrites_wake_lock_witness:
  "suspendedRings
     (run alwaysDue [Tick 1 100, WakeLockSettled 0 (WakeLockApi (Fulfilled 7)) False, Tick 1 101]
        (mount [eurusd] 0 None)) 1 = Some (AtWakeLock eurusd None) \<and>
   wakeLock
     (run alwaysDue [Tick 1 100, WakeLockSettled 0 (WakeLockApi (Fulfilled 7)) False, Tick 1 101]
        (mount [eurusd] 0 None)) = Some 7 \<and>
   wakeLock (triggerRing_afterWakeLock 1 (WakeLockApi (Fulfilled 8)) False
     (run alwaysDue [Tick 1 100, WakeLockSettled 0 (WakeLockApi (Fulfilled 7)) False, Tick 1 101]
        (mount [eurusd] 0 None))) = Some 8 \<and>
   released (trace (triggerRing_afterWakeLock 1 (WakeLockApi (Fulfilled 8)) False
     (run alwaysDue [Tick 1 100, WakeLockSettled 0 (WakeLockApi (Fulfilled 7)) False, Tick 1 101]
        (mount [eurusd] 0 None)))) = []"
proof -
  define s where "s = run alwaysDue
     [Tick 1 100, WakeLockSettled 0 (WakeLockApi (Fulfilled 7)) False, Tick 1 101]
        (mount [eurusd] 0 None)"
  have h: "suspendedRings s 1 = Some (AtWakeLock eurusd None)"
    by (simp add: s_def hook_defs)
  have w: "wakeLock s = Some 7" by (simp add: s_def hook_defs)
  have r: "released (trace s) = []" by (simp add: s_def hook_defs)
  show ?thesis
    unfolding s_def[symmetric]
    using h w r second_ring_overwrites_wake_lock[of s 1 eurusd None 8 False alwaysDue 0]
    by simp
qed

end
